theory Spec2Isabelle
  imports Main "HOL-Library.Word" "HOL-Library.Stream" "HOL-Library.Char_ord"
begin

section \<open>The link registry of the URL shortener (src/main.go)\<close>

text \<open>
  The registry is a Go map from short code to a pointer to a \<open>Link\<close>, guarded by one
  reader/writer lock. Every method of the store (\<open>Create\<close>, \<open>Get\<close>, \<open>Increment\<close>, the sweep)
  runs with the lock held for its whole body: it takes the store and returns the updated
  store. A handler calls these methods one after the other and releases the lock in
  between; the model runs one handler at a time, with nothing interleaved.
  Each \<open>Link\<close> is referenced from the map only, so the map of pointers is a map of records.
  \<open>time.Time\<close> instants are integers (nanoseconds), \<open>time.Duration\<close> likewise;
  \<open>time.Now().UTC()\<close> is the parameter \<open>now\<close> of the operation that reads the clock.
  \<open>Clicks\<close> is an \<open>int64\<close>: a 64-bit word, read as a signed number by \<open>sint\<close>.
\<close>

subsection \<open>Constants and data (lines 18--44)\<close>

definition DefaultValidityMinutes :: int where
  "DefaultValidityMinutes = 30"

definition CodeLength :: nat where
  "CodeLength = 6"

definition base62 :: string where
  "base62 = ''abcdefghijklmnopqrstuvwxyzABCDEFGHIJKLMNOPQRSTUVWXYZ0123456789''"

record Link =
  LongURL :: string
  ShortCode :: string
  CreatedAt :: int
  ExpiresAt :: int
  Clicks :: "64 word"

record Store =
  data :: "string \<rightharpoonup> Link"
  domain :: string

definition NewStore :: "string \<Rightarrow> Store" where
  "NewStore d = \<lparr>data = Map.empty, domain = d\<rparr>"

text \<open>\<open>t.After(u)\<close> of package time: whether the instant \<open>t\<close> is after \<open>u\<close>.\<close>

definition After :: "int \<Rightarrow> int \<Rightarrow> bool" where
  "After t u = (u < t)"

subsection \<open>Get and Increment (lines 90--103)\<close>

text \<open>\<open>Get\<close> returns the pair (pointer, ok) of the map lookup: an option.\<close>

definition Get :: "Store \<Rightarrow> string \<Rightarrow> Link option" where
  "Get s code = data s code"

definition Increment :: "Store \<Rightarrow> string \<Rightarrow> Store" where
  "Increment s code =
     (case data s code of
        Some l \<Rightarrow> s\<lparr>data := (data s)(code \<mapsto> l\<lparr>Clicks := Clicks l + 1\<rparr>)\<rparr>
      | None \<Rightarrow> s)"

subsection \<open>CleanupExpired (lines 105--118)\<close>

text \<open>
  \<open>CleanupExpired\<close> never returns: it sleeps a minute and sweeps, forever. \<open>sweep\<close> is
  the inner \<open>range\<close> loop over the map, which visits the keys in an order that Go leaves
  unspecified: the order is the list \<open>ks\<close>. \<open>CleanupExpired_pass\<close> is one round of the
  outer loop after the sleep (lines 108--116), for the clock reading \<open>now\<close>.
\<close>

fun sweep :: "int \<Rightarrow> string list \<Rightarrow> (string \<rightharpoonup> Link) \<Rightarrow> (string \<rightharpoonup> Link)" where
  "sweep now [] m = m"
| "sweep now (k # ks) m =
     (case m k of
        None \<Rightarrow> sweep now ks m
      | Some v \<Rightarrow> if After now (ExpiresAt v) then sweep now ks (m(k := None))
                  else sweep now ks m)"

definition CleanupExpired_pass :: "int \<Rightarrow> string list \<Rightarrow> Store \<Rightarrow> Store" where
  "CleanupExpired_pass now ks s = s\<lparr>data := sweep now ks (data s)\<rparr>"

subsection \<open>generateCode (lines 120--126)\<close>

text \<open>
  The pseudo-random source of math/rand is a stream of raw draws; \<open>rand.Intn(n)\<close> takes
  the next draw and returns a number in the half-open interval from 0 to \<open>n\<close>: the draw
  reduced modulo \<open>n\<close>, so that every sequence of in-range results is the image of a stream.
  \<open>generateCode\<close> returns the code and the rest of the stream.
\<close>

definition Intn :: "nat \<Rightarrow> nat \<Rightarrow> nat" where
  "Intn n r = r mod n"

fun generateCode :: "nat \<Rightarrow> nat stream \<Rightarrow> string \<times> nat stream" where
  "generateCode 0 rnd = ([], rnd)"
| "generateCode (Suc n) rnd =
     (base62 ! Intn (length base62) (shd rnd) # fst (generateCode n (stl rnd)),
      snd (generateCode n (stl rnd)))"

subsection \<open>url.ParseRequestURI of the Go standard library\<close>

text \<open>
  \<open>Create\<close> validates its argument with \<open>url.ParseRequestURI\<close> and looks only at the
  error. The function belongs to package net/url of the Go standard library, not to the
  repository; what follows transcribes its error paths from the library source (go1.21):
  \<open>parse\<close> with its helpers \<open>getScheme\<close>, \<open>parseAuthority\<close>, \<open>parseHost\<close>,
  \<open>validOptionalPort\<close>, \<open>validUserinfo\<close>, \<open>unescape\<close>, \<open>shouldEscape\<close> and \<open>setPath\<close>.
  A Go string is a sequence of bytes, as a \<open>string\<close> is here. Each function returns the
  error only (\<open>None\<close> is Go's \<open>nil\<close>), since \<open>Create\<close> discards the parsed URL.
\<close>

datatype url_error =
    InvalidControlCharacter
  | EmptyURL
  | MissingProtocolScheme
  | InvalidURIForRequest
  | ColonInFirstPathSegment
  | MissingBracketInHost
  | InvalidPort
  | InvalidUserinfo
  | EscapeError
  | InvalidHostError

datatype encoding =
    encodePath
  | encodePathSegment
  | encodeHost
  | encodeZone
  | encodeUserPassword
  | encodeQueryComponent
  | encodeFragment

text \<open>The byte range tests \<open>lo <= c && c <= hi\<close> of the library.\<close>

definition between :: "char \<Rightarrow> char \<Rightarrow> char \<Rightarrow> bool" where
  "between lo hi c = (lo \<le> c \<and> c \<le> hi)"

definition isLetter :: "char \<Rightarrow> bool" where
  "isLetter c = (between CHR ''a'' CHR ''z'' c \<or> between CHR ''A'' CHR ''Z'' c)"

definition isDigit :: "char \<Rightarrow> bool" where
  "isDigit c = between CHR ''0'' CHR ''9'' c"

text \<open>Package strings: \<open>IndexByte\<close>, \<open>LastIndexByte\<close>, \<open>Index\<close>, \<open>HasPrefix\<close>, \<open>HasSuffix\<close>,
  \<open>Count\<close> and \<open>Cut\<close> for a one-byte separator.\<close>

fun IndexByte :: "string \<Rightarrow> char \<Rightarrow> nat option" where
  "IndexByte [] c = None"
| "IndexByte (x # xs) c = (if x = c then Some 0 else map_option Suc (IndexByte xs c))"

definition LastIndexByte :: "string \<Rightarrow> char \<Rightarrow> nat option" where
  "LastIndexByte s c = map_option (\<lambda>i. length s - 1 - i) (IndexByte (rev s) c)"

definition HasPrefix :: "string \<Rightarrow> string \<Rightarrow> bool" where
  "HasPrefix s p = (take (length p) s = p)"

definition HasSuffix :: "string \<Rightarrow> string \<Rightarrow> bool" where
  "HasSuffix s p = (length p \<le> length s \<and> drop (length s - length p) s = p)"

fun Index :: "string \<Rightarrow> string \<Rightarrow> nat option" where
  "Index [] sub = (if sub = [] then Some 0 else None)"
| "Index (x # xs) sub =
     (if HasPrefix (x # xs) sub then Some 0 else map_option Suc (Index xs sub))"

definition CountByte :: "string \<Rightarrow> char \<Rightarrow> nat" where
  "CountByte s c = length (filter (\<lambda>x. x = c) s)"

definition Cut :: "string \<Rightarrow> char \<Rightarrow> string \<times> string" where
  "Cut s sep =
     (case IndexByte s sep of
        None \<Rightarrow> (s, [])
      | Some i \<Rightarrow> (take i s, drop (i + 1) s))"

definition stringContainsCTLByte :: "string \<Rightarrow> bool" where
  "stringContainsCTLByte s = list_ex (\<lambda>b. b < CHR '' '' \<or> b = CHR 0x7F) s"

text \<open>
  \<open>getScheme\<close> scans the bytes of \<open>rawURL\<close>; \<open>pre\<close> is \<open>rawURL[:i]\<close> and the third
  argument \<open>rawURL[i:]\<close>, so that \<open>i == 0\<close> is \<open>pre = []\<close>. It returns the scheme and
  what follows the colon, or no scheme and the whole string.
\<close>

fun getScheme_loop :: "string \<Rightarrow> string \<Rightarrow> string \<Rightarrow> url_error + (string \<times> string)" where
  "getScheme_loop rawURL pre [] = Inr ([], rawURL)"
| "getScheme_loop rawURL pre (c # cs) =
     (if isLetter c then getScheme_loop rawURL (pre @ [c]) cs
      else if isDigit c \<or> c = CHR ''+'' \<or> c = CHR ''-'' \<or> c = CHR ''.''
      then (if pre = [] then Inr ([], rawURL) else getScheme_loop rawURL (pre @ [c]) cs)
      else if c = CHR '':''
      then (if pre = [] then Inl MissingProtocolScheme else Inr (pre, cs))
      else Inr ([], rawURL))"

definition getScheme :: "string \<Rightarrow> url_error + (string \<times> string)" where
  "getScheme rawURL = getScheme_loop rawURL [] rawURL"

definition ishex :: "char \<Rightarrow> bool" where
  "ishex c = (between CHR ''0'' CHR ''9'' c \<or> between CHR ''a'' CHR ''f'' c
              \<or> between CHR ''A'' CHR ''F'' c)"

definition unhex :: "char \<Rightarrow> nat" where
  "unhex c =
     (if between CHR ''0'' CHR ''9'' c then of_char c - of_char CHR ''0''
      else if between CHR ''a'' CHR ''f'' c then of_char c - of_char CHR ''a'' + 10
      else if between CHR ''A'' CHR ''F'' c then of_char c - of_char CHR ''A'' + 10
      else 0)"

definition shouldEscape :: "char \<Rightarrow> encoding \<Rightarrow> bool" where
  "shouldEscape c mode =
     (if isLetter c \<or> isDigit c then False
      else if (mode = encodeHost \<or> mode = encodeZone)
              \<and> c \<in> set (''!$&()*+,;=:[]<>'' @ [CHR 0x27, CHR 0x22]) then False
      else if c \<in> set ''-_.~'' then False
      else if c \<in> set ''$&+,/:;=?@'' \<and> mode = encodePath then c = CHR ''?''
      else if c \<in> set ''$&+,/:;=?@'' \<and> mode = encodePathSegment
      then c = CHR ''/'' \<or> c = CHR '';'' \<or> c = CHR '','' \<or> c = CHR ''?''
      else if c \<in> set ''$&+,/:;=?@'' \<and> mode = encodeUserPassword
      then c = CHR ''@'' \<or> c = CHR ''/'' \<or> c = CHR ''?'' \<or> c = CHR '':''
      else if c \<in> set ''$&+,/:;=?@'' \<and> mode = encodeQueryComponent then True
      else if c \<in> set ''$&+,/:;=?@'' \<and> mode = encodeFragment then False
      else if mode = encodeFragment \<and> c \<in> set ''!()*'' then False
      else True)"

text \<open>
  \<open>unescape\<close>, for its error: every \<open>%\<close> must be followed by two hex digits; in a host
  only non-ASCII bytes may be escaped (and \<open>%25\<close>), in a zone only bytes a host may hold;
  a host or zone byte below \<open>0x80\<close> that \<open>shouldEscape\<close> is refused.
\<close>

fun unescape :: "string \<Rightarrow> encoding \<Rightarrow> url_error option" where
  "unescape [] mode = None"
| "unescape (c # cs) mode =
     (if c = CHR ''%'' then
        (case cs of
           h1 # h2 # rest \<Rightarrow>
             if \<not> ishex h1 \<or> \<not> ishex h2 then Some EscapeError
             else if mode = encodeHost \<and> unhex h1 < 8 \<and> [c, h1, h2] \<noteq> ''%25''
             then Some EscapeError
             else if mode = encodeZone \<and> [c, h1, h2] \<noteq> ''%25''
                     \<and> unhex h1 * 16 + unhex h2 \<noteq> of_char CHR '' ''
                     \<and> shouldEscape (char_of (unhex h1 * 16 + unhex h2)) encodeHost
             then Some EscapeError
             else unescape rest mode
         | _ \<Rightarrow> Some EscapeError)
      else if c = CHR ''+'' then unescape cs mode
      else if (mode = encodeHost \<or> mode = encodeZone) \<and> c < CHR 0x80
              \<and> shouldEscape c encodeHost
      then Some InvalidHostError
      else unescape cs mode)"

definition validOptionalPort :: "string \<Rightarrow> bool" where
  "validOptionalPort port =
     (case port of
        [] \<Rightarrow> True
      | c # cs \<Rightarrow> if c \<noteq> CHR '':'' then False else list_all isDigit cs)"

definition validUserinfo :: "string \<Rightarrow> bool" where
  "validUserinfo s =
     list_all (\<lambda>r. isLetter r \<or> isDigit r
                 \<or> r \<in> set (''-._:~!$&()*+,;=%@'' @ [CHR 0x27])) s"

definition parseHost :: "string \<Rightarrow> url_error option" where
  "parseHost host =
     (if HasPrefix host ''['' then
        (case LastIndexByte host CHR '']'' of
           None \<Rightarrow> Some MissingBracketInHost
         | Some i \<Rightarrow>
             if \<not> validOptionalPort (drop (i + 1) host) then Some InvalidPort
             else (case Index (take i host) ''%25'' of
                     Some zone \<Rightarrow>
                       (case unescape (take zone host) encodeHost of
                          Some e \<Rightarrow> Some e
                        | None \<Rightarrow>
                            (case unescape (drop zone (take i host)) encodeZone of
                               Some e \<Rightarrow> Some e
                             | None \<Rightarrow> unescape (drop i host) encodeHost))
                   | None \<Rightarrow> unescape host encodeHost))
      else
        (case LastIndexByte host CHR '':'' of
           Some i \<Rightarrow>
             if \<not> validOptionalPort (drop i host) then Some InvalidPort
             else unescape host encodeHost
         | None \<Rightarrow> unescape host encodeHost))"

definition parseAuthority :: "string \<Rightarrow> url_error option" where
  "parseAuthority authority =
     (case LastIndexByte authority CHR ''@'' of
        None \<Rightarrow> parseHost authority
      | Some i \<Rightarrow>
          (case parseHost (drop (i + 1) authority) of
             Some e \<Rightarrow> Some e
           | None \<Rightarrow>
               if \<not> validUserinfo (take i authority) then Some InvalidUserinfo
               else if CHR '':'' \<notin> set (take i authority)
               then unescape (take i authority) encodeUserPassword
               else (case unescape (fst (Cut (take i authority) CHR '':'')) encodeUserPassword of
                       Some e \<Rightarrow> Some e
                     | None \<Rightarrow>
                         unescape (snd (Cut (take i authority) CHR '':'')) encodeUserPassword)))"

definition setPath :: "string \<Rightarrow> url_error option" where
  "setPath p = unescape p encodePath"

text \<open>
  \<open>parse\<close>: \<open>parse_rest\<close> is its second half, from the test for an authority on, applied
  to the scheme and to what is left once the query has been cut off.
\<close>

definition parse_rest :: "string \<Rightarrow> string \<Rightarrow> bool \<Rightarrow> url_error option" where
  "parse_rest scheme rest viaRequest =
     (if (scheme \<noteq> [] \<or> \<not> viaRequest \<and> \<not> HasPrefix rest ''///'') \<and> HasPrefix rest ''//''
      then
        (case IndexByte (drop 2 rest) CHR ''/'' of
           Some i \<Rightarrow>
             (case parseAuthority (take i (drop 2 rest)) of
                Some e \<Rightarrow> Some e
              | None \<Rightarrow> setPath (drop i (drop 2 rest)))
         | None \<Rightarrow>
             (case parseAuthority (drop 2 rest) of
                Some e \<Rightarrow> Some e
              | None \<Rightarrow> setPath []))
      else setPath rest)"

definition parse :: "string \<Rightarrow> bool \<Rightarrow> url_error option" where
  "parse rawURL viaRequest =
     (if stringContainsCTLByte rawURL then Some InvalidControlCharacter
      else if rawURL = [] \<and> viaRequest then Some EmptyURL
      else if rawURL = ''*'' then None
      else
        (case getScheme rawURL of
           Inl e \<Rightarrow> Some e
         | Inr (scheme, rest0) \<Rightarrow>
             (let rest = (if HasSuffix rest0 ''?'' \<and> CountByte rest0 CHR ''?'' = 1
                          then take (length rest0 - 1) rest0
                          else fst (Cut rest0 CHR ''?''))
              in if \<not> HasPrefix rest ''/'' then
                   (if scheme \<noteq> [] then None
                    else if viaRequest then Some InvalidURIForRequest
                    else if CHR '':'' \<in> set (fst (Cut rest CHR ''/''))
                    then Some ColonInFirstPathSegment
                    else parse_rest scheme rest viaRequest)
                 else parse_rest scheme rest viaRequest)))"

definition ParseRequestURI :: "string \<Rightarrow> url_error option" where
  "ParseRequestURI rawURL = parse rawURL True"

text \<open>
  Notions to describe what the parser accepts. By RFC 3986 an absolute URI begins with a
  scheme (a letter followed by letters, digits, \<open>+\<close>, \<open>-\<close> and \<open>.\<close>) and a colon.
  \<open>startsWithScheme\<close> is that prefix test alone: it is necessary for an absolute URI and
  not sufficient (\<open>a: b\<close> passes it and is no URI). \<open>afterScheme\<close> is what follows the
  colon, \<open>beforeQuery\<close> what precedes the first question mark, and \<open>escapesWellFormed\<close>
  says that every \<open>%\<close> is followed by two hex digits.
\<close>

definition schemeChar :: "char \<Rightarrow> bool" where
  "schemeChar c = (isLetter c \<or> isDigit c \<or> c = CHR ''+'' \<or> c = CHR ''-'' \<or> c = CHR ''.'')"

definition startsWithScheme :: "string \<Rightarrow> bool" where
  "startsWithScheme u =
     (case u of
        [] \<Rightarrow> False
      | c # cs \<Rightarrow>
          isLetter c \<and>
          (case dropWhile schemeChar cs of [] \<Rightarrow> False | d # _ \<Rightarrow> d = CHR '':''))"

definition afterScheme :: "string \<Rightarrow> string" where
  "afterScheme u = tl (dropWhile schemeChar u)"

definition beforeQuery :: "string \<Rightarrow> string" where
  "beforeQuery u = takeWhile (\<lambda>c. c \<noteq> CHR ''?'') u"

fun escapesWellFormed :: "string \<Rightarrow> bool" where
  "escapesWellFormed [] = True"
| "escapesWellFormed (c # cs) =
     ((c = CHR ''%'' \<longrightarrow> (case cs of h1 # h2 # _ \<Rightarrow> ishex h1 \<and> ishex h2 | _ \<Rightarrow> False))
      \<and> escapesWellFormed cs)"

subsection \<open>Create (lines 46--88)\<close>

text \<open>
  The two errors of \<open>Create\<close> are built by \<open>fmt.Errorf\<close> from a message; the specification
  calls them InvalidURL and CodeConflict.
\<close>

datatype error = InvalidURL | CodeConflict

definition Error :: "error \<Rightarrow> string" where
  "Error e = (case e of InvalidURL \<Rightarrow> ''invalid url''
              | CodeConflict \<Rightarrow> ''custom code already exists'')"

text \<open>
  The loop of lines 64--69 draws codes until one is not a key of the map. Nothing bounds
  the number of rounds, so the loop is a partial function: \<open>None\<close> is the loop that never
  ends. It returns the code and the rest of the random stream.
\<close>

partial_function (option) Create_loop ::
    "(string \<rightharpoonup> Link) \<Rightarrow> nat stream \<Rightarrow> (string \<times> nat stream) option" where
  "Create_loop d rnd =
     (if d (fst (generateCode CodeLength rnd)) = None
      then Some (generateCode CodeLength rnd)
      else Create_loop d (snd (generateCode CodeLength rnd)))"

text \<open>Lines 72--87: the new record, stamped with the clock reading, stored under the code.\<close>

definition Create_insert ::
    "Store \<Rightarrow> string \<Rightarrow> string \<Rightarrow> int \<Rightarrow> int \<Rightarrow> nat stream
      \<Rightarrow> (error + Link) \<times> Store \<times> nat stream" where
  "Create_insert s longURL code validity now rnd =
     (let l = \<lparr>LongURL = longURL, ShortCode = code, CreatedAt = now,
                ExpiresAt = now + validity, Clicks = 0\<rparr>
      in (Inr l, s\<lparr>data := (data s)(code \<mapsto> l)\<rparr>, rnd))"

text \<open>
  \<open>Create\<close> returns the link or the error, the store and the rest of the random stream;
  \<open>None\<close> when the generation loop never ends.
\<close>

definition Create ::
    "Store \<Rightarrow> string \<Rightarrow> string \<Rightarrow> int \<Rightarrow> int \<Rightarrow> nat stream
      \<Rightarrow> ((error + Link) \<times> Store \<times> nat stream) option" where
  "Create s longURL custom validity now rnd =
     (if ParseRequestURI longURL \<noteq> None then Some (Inl InvalidURL, s, rnd)
      else if custom \<noteq> [] then
        (if data s custom \<noteq> None then Some (Inl CodeConflict, s, rnd)
         else Some (Create_insert s longURL custom validity now rnd))
      else
        (case Create_loop (data s) rnd of
           None \<Rightarrow> None
         | Some (code, rnd') \<Rightarrow> Some (Create_insert s longURL code validity now rnd')))"

subsection \<open>HTTP responses and handlers (lines 173--223)\<close>

datatype json = JString string | JInt int | JTime int | JObject "(string \<times> json) list"

datatype HttpResponse =
    JSONResponse nat json
  | RedirectResponse nat string

definition StatusOK :: nat where "StatusOK = 200"
definition StatusFound :: nat where "StatusFound = 302"
definition StatusNotFound :: nat where "StatusNotFound = 404"
definition StatusGone :: nat where "StatusGone = 410"

text \<open>The JSON encoding of a \<open>Link\<close>, by the field tags of lines 26--30.\<close>

definition linkJSON :: "Link \<Rightarrow> json" where
  "linkJSON l = JObject
     [(''long_url'', JString (LongURL l)),
      (''short_code'', JString (ShortCode l)),
      (''created_at'', JTime (CreatedAt l)),
      (''expires_at'', JTime (ExpiresAt l)),
      (''clicks'', JInt (sint (Clicks l)))]"

definition writeJSON :: "nat \<Rightarrow> json \<Rightarrow> HttpResponse" where
  "writeJSON st v = JSONResponse st v"

definition httpError :: "nat \<Rightarrow> string \<Rightarrow> HttpResponse" where
  "httpError st msg = writeJSON st (JObject [(''error'', JString msg)])"

definition redirectHandler :: "Store \<Rightarrow> string \<Rightarrow> int \<Rightarrow> HttpResponse \<times> Store" where
  "redirectHandler store code now =
     (case Get store code of
        None \<Rightarrow> (httpError StatusNotFound ''short link not found'', store)
      | Some link \<Rightarrow>
          if After now (ExpiresAt link)
          then (httpError StatusGone ''short link expired'', store)
          else (RedirectResponse StatusFound (LongURL link), Increment store code))"

definition statsHandler :: "Store \<Rightarrow> string \<Rightarrow> HttpResponse" where
  "statsHandler store code =
     (case Get store code of
        None \<Rightarrow> httpError StatusNotFound ''short link not found''
      | Some link \<Rightarrow> writeJSON StatusOK (linkJSON link))"

section \<open>Properties\<close>

subsection \<open>Helper lemmas\<close>

lemma sweep_lookup:
  "sweep now ks m k =
     (if k \<in> set ks
      then (case m k of None \<Rightarrow> None
            | Some v \<Rightarrow> if After now (ExpiresAt v) then None else Some v)
      else m k)"
proof (induction ks arbitrary: m k)
  case Nil
  show ?case by simp
next
  case (Cons a ks)
  show ?case
  proof (cases "m a")
    case None
    then show ?thesis by (simp add: Cons.IH)
  next
    case (Some v)
    then show ?thesis by (simp add: Cons.IH)
  qed
qed

lemma base62_length: "length base62 = 62"
  by (simp add: base62_def)

lemma generateCode_length: "length (fst (generateCode n rnd)) = n"
  by (induction n arbitrary: rnd) simp_all

lemma generateCode_chars: "set (fst (generateCode n rnd)) \<subseteq> set base62"
proof (induction n arbitrary: rnd)
  case 0
  show ?case by simp
next
  case (Suc n)
  have "Intn (length base62) (shd rnd) < length base62"
    by (simp add: Intn_def base62_length)
  then have "base62 ! Intn (length base62) (shd rnd) \<in> set base62"
    by (rule nth_mem)
  then show ?case using Suc.IH [of "stl rnd"] by simp
qed

lemma CodeLength_Suc: "CodeLength = Suc (Suc (Suc (Suc (Suc (Suc 0)))))"
  by (simp add: CodeLength_def)

lemma generateCode_rest: "snd (generateCode n rnd) = sdrop n rnd"
  by (induction n arbitrary: rnd) simp_all

lemma int64_succ:
  fixes c :: "64 word"
  assumes "sint c < 2 ^ 63 - 1"
  shows "sint (c + 1) = sint c + 1"
proof -
  have lo: "- (2 ^ 63) \<le> sint c"
    using sint_ge [of c] by simp
  have "sint (c + 1) = signed_take_bit 63 (sint c + 1)"
    by (simp add: sint_word_ariths)
  also have "\<dots> = sint c + 1"
    using lo assms by (simp add: signed_take_bit_int_eq_self)
  finally show ?thesis .
qed

lemmas url_eval =
  ParseRequestURI_def parse_def stringContainsCTLByte_def getScheme_def between_def
  isLetter_def isDigit_def HasSuffix_def HasPrefix_def CountByte_def Cut_def parse_rest_def
  parseAuthority_def LastIndexByte_def parseHost_def setPath_def shouldEscape_def

lemma Create_loop_terminates:
  assumes "d (fst (generateCode CodeLength (sdrop (k * CodeLength) rnd))) = None"
  shows "\<exists>code rnd'. Create_loop d rnd = Some (code, rnd') \<and> d code = None
            \<and> length code = 6 \<and> set code \<subseteq> set base62"
  using assms
proof (induction k arbitrary: rnd)
  case 0
  then have free: "d (fst (generateCode CodeLength rnd)) = None"
    by simp
  have "Create_loop d rnd = Some (generateCode CodeLength rnd)"
    by (subst Create_loop.simps) (simp add: free)
  then have "Create_loop d rnd =
      Some (fst (generateCode CodeLength rnd), snd (generateCode CodeLength rnd))"
    by simp
  moreover have "length (fst (generateCode CodeLength rnd)) = 6"
    by (simp add: generateCode_length CodeLength_def)
  ultimately show ?case
    using free generateCode_chars by blast
next
  case (Suc k)
  show ?case
  proof (cases "d (fst (generateCode CodeLength rnd)) = None")
    case True
    then have "d (fst (generateCode CodeLength (sdrop (0 * CodeLength) rnd))) = None"
      by simp
    have "Create_loop d rnd = Some (generateCode CodeLength rnd)"
      by (subst Create_loop.simps) (simp add: True)
    then have "Create_loop d rnd =
        Some (fst (generateCode CodeLength rnd), snd (generateCode CodeLength rnd))"
      by simp
    moreover have "length (fst (generateCode CodeLength rnd)) = 6"
      by (simp add: generateCode_length CodeLength_def)
    ultimately show ?thesis
      using True generateCode_chars by blast
  next
    case False
    have step: "Create_loop d rnd = Create_loop d (sdrop CodeLength rnd)"
      by (subst Create_loop.simps) (simp add: False generateCode_rest)
    have "sdrop (k * CodeLength) (sdrop CodeLength rnd) = sdrop (Suc k * CodeLength) rnd"
      by simp
    then have "d (fst (generateCode CodeLength (sdrop (k * CodeLength) (sdrop CodeLength rnd)))) = None"
      using Suc.prems by simp
    then show ?thesis
      using Suc.IH [of "sdrop CodeLength rnd"] step by simp
  qed
qed

lemma Create_loop_Some_unused:
  assumes "Create_loop d rnd = Some y"
  shows "\<exists>c. length c = 6 \<and> set c \<subseteq> set base62 \<and> d c = None"
proof (rule Create_loop.raw_induct
    [where P = "\<lambda>d rnd y. \<exists>c. length c = 6 \<and> set c \<subseteq> set base62 \<and> d c = None",
      OF _ assms])
  fix f :: "(string \<rightharpoonup> Link) \<Rightarrow> nat stream \<Rightarrow> (string \<times> nat stream) option"
    and d rnd y
  assume IH: "\<And>d rnd y. f d rnd = Some y \<Longrightarrow>
      \<exists>c. length c = 6 \<and> set c \<subseteq> set base62 \<and> d c = None"
    and eq: "(if d (fst (generateCode CodeLength rnd)) = None
              then Some (generateCode CodeLength rnd)
              else f d (snd (generateCode CodeLength rnd))) = Some y"
  show "\<exists>c. length c = 6 \<and> set c \<subseteq> set base62 \<and> d c = None"
  proof (cases "d (fst (generateCode CodeLength rnd)) = None")
    case True
    moreover have "length (fst (generateCode CodeLength rnd)) = 6"
      by (simp add: generateCode_length CodeLength_def)
    ultimately show ?thesis
      using generateCode_chars by blast
  next
    case False
    with eq have "f d (snd (generateCode CodeLength rnd)) = Some y"
      by (simp split: if_splits)
    then show ?thesis by (rule IH)
  qed
qed

lemma Create_loop_diverges:
  assumes "\<forall>c. length c = 6 \<and> set c \<subseteq> set base62 \<longrightarrow> d c \<noteq> None"
  shows "Create_loop d rnd = None"
proof (cases "Create_loop d rnd")
  case None
  then show ?thesis .
next
  case (Some y)
  then show ?thesis
    using Create_loop_Some_unused [of d rnd y] assms by blast
qed

lemma getScheme_loop_no_scheme:
  "getScheme_loop raw pre cs = Inr ([], rest) \<Longrightarrow> rest = raw"
  by (induction cs arbitrary: pre) (auto split: if_splits)

lemma not_schemeChar_colon: "\<not> schemeChar CHR '':''"
  by (simp add: schemeChar_def isLetter_def isDigit_def between_def)

lemma getScheme_loop_scheme:
  assumes "getScheme_loop raw pre cs = Inr (sch, rest)" and "sch \<noteq> []"
    and "list_all schemeChar pre" and "pre \<noteq> [] \<longrightarrow> isLetter (hd pre)"
  shows "startsWithScheme (pre @ cs)"
  using assms
proof (induction cs arbitrary: pre)
  case Nil
  then show ?case by simp
next
  case (Cons c cs)
  show ?case
  proof (cases "isLetter c")
    case True
    have "startsWithScheme ((pre @ [c]) @ cs)"
    proof (rule Cons.IH)
      show "getScheme_loop raw (pre @ [c]) cs = Inr (sch, rest)"
        using Cons.prems(1) True by simp
      show "sch \<noteq> []" by (rule Cons.prems(2))
      show "list_all schemeChar (pre @ [c])"
      proof -
        have "schemeChar c" using True by (simp add: schemeChar_def)
        then show ?thesis using Cons.prems(3) by simp
      qed
      show "pre @ [c] \<noteq> [] \<longrightarrow> isLetter (hd (pre @ [c]))"
        using Cons.prems(4) True by (cases pre) simp_all
    qed
    then show ?thesis by simp
  next
    case notLetter: False
    show ?thesis
    proof (cases "isDigit c \<or> c = CHR ''+'' \<or> c = CHR ''-'' \<or> c = CHR ''.''")
      case True
      then have nonempty: "pre \<noteq> []"
        using Cons.prems(1,2) notLetter by (auto split: if_splits)
      have "startsWithScheme ((pre @ [c]) @ cs)"
      proof (rule Cons.IH)
        show "getScheme_loop raw (pre @ [c]) cs = Inr (sch, rest)"
          using Cons.prems(1) True notLetter nonempty by (simp split: if_splits)
        show "sch \<noteq> []" by (rule Cons.prems(2))
        show "list_all schemeChar (pre @ [c])"
        proof -
          have "schemeChar c" using True by (auto simp add: schemeChar_def)
          then show ?thesis using Cons.prems(3) by simp
        qed
        show "pre @ [c] \<noteq> [] \<longrightarrow> isLetter (hd (pre @ [c]))"
          using Cons.prems(4) nonempty by (cases pre) simp_all
      qed
      then show ?thesis by simp
    next
      case False
      then have colon: "c = CHR '':''" and nonempty: "pre \<noteq> []"
        using Cons.prems(1,2) notLetter by (auto split: if_splits)
      obtain p ps where pre: "pre = p # ps"
        using nonempty by (cases pre) auto
      have "isLetter p"
        using Cons.prems(4) pre by simp
      moreover have "dropWhile schemeChar (ps @ CHR '':'' # cs) = CHR '':'' # cs"
      proof -
        have "\<And>x. x \<in> set ps \<Longrightarrow> schemeChar x"
          using Cons.prems(3) pre by (simp add: list_all_iff)
        then have "dropWhile schemeChar (ps @ CHR '':'' # cs)
            = dropWhile schemeChar (CHR '':'' # cs)"
          by (rule dropWhile_append2)
        then show ?thesis
          by (simp add: not_schemeChar_colon)
      qed
      ultimately show ?thesis
        by (simp add: startsWithScheme_def pre colon)
    qed
  qed
qed

lemma ishex_not_percent: "ishex h \<Longrightarrow> h \<noteq> CHR ''%''"
  by (auto simp add: ishex_def between_def)

lemma unescape_path_wellFormed:
  "mode = encodePath \<Longrightarrow> (unescape p mode = None) = escapesWellFormed p"
proof (induction p mode rule: unescape.induct)
  case (1 mode)
  show ?case by simp
next
  case (2 c cs mode)
  show ?case
  proof (cases "c = CHR ''%''")
    case True
    show ?thesis
    proof (cases cs)
      case Nil
      then show ?thesis using True by simp
    next
      case (Cons h1 cs1)
      show ?thesis
      proof (cases cs1)
        case Nil
        then show ?thesis using True Cons by simp
      next
        case (Cons h2 rest)
        show ?thesis
        proof (cases "ishex h1 \<and> ishex h2")
          case False
          then show ?thesis
            using True \<open>cs = h1 # cs1\<close> Cons by auto
        next
          case hex: True
          then have "h1 \<noteq> CHR ''%''" and "h2 \<noteq> CHR ''%''"
            using ishex_not_percent by blast+
          moreover have "(unescape rest mode = None) = escapesWellFormed rest"
            using "2.IH"(1) [of h1 cs1 h2 rest] "2.prems" True \<open>cs = h1 # cs1\<close> Cons hex
            by simp
          ultimately show ?thesis
            using True \<open>cs = h1 # cs1\<close> Cons hex "2.prems" by simp
        qed
      qed
    qed
  next
    case False
    then show ?thesis
      using "2.IH"(2,3) "2.prems" by auto
  qed
qed

lemma Cut_fst_takeWhile: "fst (Cut s c) = takeWhile (\<lambda>x. x \<noteq> c) s"
proof -
  have "(case IndexByte s c of None \<Rightarrow> s | Some i \<Rightarrow> take i s) = takeWhile (\<lambda>x. x \<noteq> c) s"
    by (induction s) (auto split: option.splits)
  then show ?thesis
    by (simp add: Cut_def split: option.splits)
qed

lemma only_last_takeWhile:
  assumes "HasSuffix r ''?''" and "CountByte r CHR ''?'' = 1"
  shows "take (length r - 1) r = takeWhile (\<lambda>x. x \<noteq> CHR ''?'') r"
proof -
  have nonempty: "r \<noteq> []"
    using assms(1) by (auto simp add: HasSuffix_def)
  have "last (drop (length r - 1) r) = last r"
    using nonempty by (simp add: last_drop)
  moreover have "drop (length r - 1) r = ''?''"
    using assms(1) by (simp add: HasSuffix_def)
  ultimately have last: "last r = CHR ''?''"
    by simp
  have split: "r = butlast r @ [CHR ''?'']"
    using nonempty last append_butlast_last_id [of r] by simp
  have "length (filter (\<lambda>x. x = CHR ''?'') (butlast r @ [CHR ''?''])) = 1"
    using assms(2) split by (simp add: CountByte_def)
  then have "filter (\<lambda>x. x = CHR ''?'') (butlast r) = []"
    by simp
  then have "\<And>x. x \<in> set (butlast r) \<Longrightarrow> x \<noteq> CHR ''?''"
    by (simp add: filter_empty_conv)
  then have "takeWhile (\<lambda>x. x \<noteq> CHR ''?'') (butlast r @ [CHR ''?'']) = butlast r"
    by (simp add: takeWhile_append2)
  then have "takeWhile (\<lambda>x. x \<noteq> CHR ''?'') r = butlast r"
    using split by simp
  then show ?thesis
    by (simp add: butlast_conv_take)
qed

lemma parse_rest_beforeQuery:
  "(if HasSuffix r ''?'' \<and> CountByte r CHR ''?'' = 1
    then take (length r - 1) r else fst (Cut r CHR ''?'')) = beforeQuery r"
  using only_last_takeWhile [of r] by (simp add: beforeQuery_def Cut_fst_takeWhile)

lemma parse_beforeQuery:
  "parse rawURL viaRequest =
     (if stringContainsCTLByte rawURL then Some InvalidControlCharacter
      else if rawURL = [] \<and> viaRequest then Some EmptyURL
      else if rawURL = ''*'' then None
      else
        (case getScheme rawURL of
           Inl e \<Rightarrow> Some e
         | Inr (scheme, rest0) \<Rightarrow>
             (let rest = beforeQuery rest0
              in if \<not> HasPrefix rest ''/'' then
                   (if scheme \<noteq> [] then None
                    else if viaRequest then Some InvalidURIForRequest
                    else if CHR '':'' \<in> set (fst (Cut rest CHR ''/''))
                    then Some ColonInFirstPathSegment
                    else parse_rest scheme rest viaRequest)
                 else parse_rest scheme rest viaRequest)))"
  by (simp only: parse_def parse_rest_beforeQuery)

lemma HasPrefix_beforeQuery: "HasPrefix (beforeQuery u) ''/'' = HasPrefix u ''/''"
  by (cases u) (simp_all add: HasPrefix_def beforeQuery_def)

lemma getScheme_loop_started:
  assumes "pre \<noteq> []"
  shows "getScheme_loop raw pre cs =
           (case dropWhile schemeChar cs of
              [] \<Rightarrow> Inr ([], raw)
            | d # r \<Rightarrow> if d = CHR '':'' then Inr (pre @ takeWhile schemeChar cs, r)
                        else Inr ([], raw))"
  using assms
proof (induction cs arbitrary: pre)
  case Nil
  show ?case by simp
next
  case (Cons c cs)
  show ?case
  proof (cases "schemeChar c")
    case True
    then have step: "getScheme_loop raw pre (c # cs) = getScheme_loop raw (pre @ [c]) cs"
      using Cons.prems by (auto simp add: schemeChar_def)
    have IH: "getScheme_loop raw (pre @ [c]) cs =
           (case dropWhile schemeChar cs of
              [] \<Rightarrow> Inr ([], raw)
            | d # r \<Rightarrow> if d = CHR '':'' then Inr ((pre @ [c]) @ takeWhile schemeChar cs, r)
                        else Inr ([], raw))"
      by (rule Cons.IH) simp
    have dw: "dropWhile schemeChar (c # cs) = dropWhile schemeChar cs"
      using True by simp
    have tw: "pre @ takeWhile schemeChar (c # cs) = (pre @ [c]) @ takeWhile schemeChar cs"
      using True by simp
    show ?thesis
      unfolding step IH dw tw by (rule refl)
  next
    case False
    then show ?thesis
      using Cons.prems by (auto simp add: schemeChar_def)
  qed
qed

lemma getScheme_with_scheme:
  assumes "startsWithScheme u"
  shows "\<exists>sch. sch \<noteq> [] \<and> getScheme u = Inr (sch, afterScheme u)"
proof -
  obtain c cs r where u: "u = c # cs" and letter: "isLetter c"
    and colon: "dropWhile schemeChar cs = CHR '':'' # r"
    using assms by (auto simp add: startsWithScheme_def split: list.splits)
  have "getScheme u = getScheme_loop u [c] cs"
    using u letter by (simp add: getScheme_def)
  also have "\<dots> = Inr ([c] @ takeWhile schemeChar cs, r)"
    using colon by (simp add: getScheme_loop_started)
  finally have "getScheme u = Inr ([c] @ takeWhile schemeChar cs, r)" .
  moreover have "afterScheme u = r"
    using u letter colon by (simp add: afterScheme_def schemeChar_def)
  ultimately show ?thesis by simp
qed

lemma getScheme_loop_error:
  "getScheme_loop raw pre cs = Inl e \<Longrightarrow> pre = [] \<and> (\<exists>r. cs = CHR '':'' # r)"
proof (induction cs arbitrary: pre)
  case Nil
  then show ?case by simp
next
  case (Cons c cs)
  show ?case
  proof (cases "isLetter c \<or> (isDigit c \<or> c = CHR ''+'' \<or> c = CHR ''-'' \<or> c = CHR ''.'') \<and> pre \<noteq> []")
    case True
    then have "getScheme_loop raw (pre @ [c]) cs = Inl e"
      using Cons.prems by (auto split: if_splits)
    then have "pre @ [c] = []"
      using Cons.IH by blast
    then show ?thesis by simp
  next
    case False
    then show ?thesis
      using Cons.prems by (auto split: if_splits)
  qed
qed

lemma getScheme_without_scheme:
  assumes "\<not> startsWithScheme u"
  shows "getScheme u = Inr ([], u) \<or> (\<exists>e r. getScheme u = Inl e \<and> u = CHR '':'' # r)"
proof (cases "getScheme u")
  case (Inl e)
  then show ?thesis
    using getScheme_loop_error [of u "[]" u e] by (auto simp add: getScheme_def)
next
  case (Inr p)
  obtain sch rest where p: "p = (sch, rest)" by (cases p)
  have "sch = []"
  proof (rule ccontr)
    assume "sch \<noteq> []"
    then have "startsWithScheme ([] @ u)"
      using getScheme_loop_scheme [of u "[]" u sch rest] Inr p by (simp add: getScheme_def)
    then show False using assms by simp
  qed
  then show ?thesis
    using Inr p getScheme_loop_no_scheme [of u "[]" u rest] by (simp add: getScheme_def)
qed

lemma ParseRequestURI_without_scheme:
  assumes "\<not> startsWithScheme u"
  shows "(ParseRequestURI u = None) =
           (\<not> stringContainsCTLByte u
            \<and> (u = ''*'' \<or> HasPrefix u ''/'' \<and> escapesWellFormed (beforeQuery u)))"
proof (cases "stringContainsCTLByte u \<or> u = [] \<or> u = ''*''")
  case True
  then show ?thesis
    by (auto simp add: ParseRequestURI_def parse_def HasPrefix_def stringContainsCTLByte_def)
next
  case False
  from getScheme_without_scheme [OF assms] show ?thesis
  proof
    assume gs: "getScheme u = Inr ([], u)"
    have "parse u True =
        (if \<not> HasPrefix (beforeQuery u) ''/'' then Some InvalidURIForRequest
         else setPath (beforeQuery u))"
      using False gs
      by (simp add: parse_beforeQuery Let_def parse_rest_def)
    then show ?thesis
      using False
      by (simp add: ParseRequestURI_def HasPrefix_beforeQuery setPath_def
          unescape_path_wellFormed)
  next
    assume "\<exists>e r. getScheme u = Inl e \<and> u = CHR '':'' # r"
    then obtain e r where gs: "getScheme u = Inl e" and u: "u = CHR '':'' # r"
      by blast
    have "parse u True = Some e"
      using False gs by (simp add: parse_def)
    then show ?thesis
      using u by (simp add: ParseRequestURI_def HasPrefix_def)
  qed
qed

lemma ParseRequestURI_opaque:
  assumes "startsWithScheme u" and "\<not> stringContainsCTLByte u"
    and "\<not> HasPrefix (afterScheme u) ''/''"
  shows "ParseRequestURI u = None"
proof -
  obtain sch where sch: "sch \<noteq> []" and gs: "getScheme u = Inr (sch, afterScheme u)"
    using getScheme_with_scheme [OF assms(1)] by blast
  have "u \<noteq> []" and "u \<noteq> ''*''"
    using assms(1) by (auto simp add: startsWithScheme_def isLetter_def between_def)
  moreover have "\<not> HasPrefix (beforeQuery (afterScheme u)) ''/''"
    using assms(3) by (simp add: HasPrefix_beforeQuery)
  ultimately show ?thesis
    using assms(2) gs sch
    by (simp add: ParseRequestURI_def parse_beforeQuery Let_def)
qed

lemma generateCode_zeros:
  "generateCode CodeLength (sconst 0) = (''aaaaaa'', sconst 0)"
  by (simp add: CodeLength_Suc Intn_def base62_def)

subsection \<open>The expiry sweep\<close>

text \<open>
  C2 (as stated, refuted): a record whose \<open>expiresAt\<close> equals the current time is at or
  before it, yet the sweep keeps it: \<open>now.After(v.ExpiresAt)\<close> is strict.
\<close>

theorem sweep_keeps_record_expiring_now:
  "ExpiresAt \<lparr>LongURL = ''https://example.com'', ShortCode = ''abc'', CreatedAt = 2,
       ExpiresAt = 5, Clicks = 0\<rparr> \<le> 5
   \<and> data (CleanupExpired_pass 5 [''abc'']
         \<lparr>data = [''abc'' \<mapsto> \<lparr>LongURL = ''https://example.com'', ShortCode = ''abc'',
                     CreatedAt = 2, ExpiresAt = 5, Clicks = 0\<rparr>],
          domain = ''http://localhost:8080''\<rparr>) ''abc''
     = Some \<lparr>LongURL = ''https://example.com'', ShortCode = ''abc'', CreatedAt = 2,
         ExpiresAt = 5, Clicks = 0\<rparr>"
  by (simp add: CleanupExpired_pass_def After_def)

text \<open>
  C2 (amended): for every registry state and every current time \<open>now\<close>, one sweep, in
  whatever order it visits the keys of the map, removes exactly the records whose
  \<open>expiresAt\<close> is strictly before \<open>now\<close>; every record with \<open>expiresAt\<close> at or after
  \<open>now\<close> is still present and unchanged, and no record is added.
\<close>

theorem sweep_removes_strictly_expired:
  assumes "set ks = dom (data s)"
  shows "data (CleanupExpired_pass now ks s) code =
           (case data s code of
              None \<Rightarrow> None
            | Some v \<Rightarrow> if ExpiresAt v < now then None else Some v)
         \<and> domain (CleanupExpired_pass now ks s) = domain s"
proof -
  have "code \<in> set ks \<longleftrightarrow> data s code \<noteq> None"
    using assms by (simp add: dom_def)
  then show ?thesis
    by (cases "data s code") (simp_all add: CleanupExpired_pass_def sweep_lookup After_def)
qed

theorem sweep_removes_strictly_expired_witness:
  "set [''old'', ''new''] =
     dom (data \<lparr>data = [''old'' \<mapsto> \<lparr>LongURL = ''/a'', ShortCode = ''old'', CreatedAt = 0,
                                ExpiresAt = 9, Clicks = 3\<rparr>,
                       ''new'' \<mapsto> \<lparr>LongURL = ''/b'', ShortCode = ''new'', CreatedAt = 1,
                                ExpiresAt = 10, Clicks = 0\<rparr>],
               domain = ''d''\<rparr>)
   \<and> data (CleanupExpired_pass 10 [''old'', ''new'']
         \<lparr>data = [''old'' \<mapsto> \<lparr>LongURL = ''/a'', ShortCode = ''old'', CreatedAt = 0,
                                ExpiresAt = 9, Clicks = 3\<rparr>,
                  ''new'' \<mapsto> \<lparr>LongURL = ''/b'', ShortCode = ''new'', CreatedAt = 1,
                                ExpiresAt = 10, Clicks = 0\<rparr>],
          domain = ''d''\<rparr>) ''old'' = None
   \<and> data (CleanupExpired_pass 10 [''old'', ''new'']
         \<lparr>data = [''old'' \<mapsto> \<lparr>LongURL = ''/a'', ShortCode = ''old'', CreatedAt = 0,
                                ExpiresAt = 9, Clicks = 3\<rparr>,
                  ''new'' \<mapsto> \<lparr>LongURL = ''/b'', ShortCode = ''new'', CreatedAt = 1,
                                ExpiresAt = 10, Clicks = 0\<rparr>],
          domain = ''d''\<rparr>) ''new''
       = Some \<lparr>LongURL = ''/b'', ShortCode = ''new'', CreatedAt = 1, ExpiresAt = 10,
           Clicks = 0\<rparr>"
proof -
  let ?old = "\<lparr>LongURL = ''/a'', ShortCode = ''old'', CreatedAt = 0, ExpiresAt = 9,
                Clicks = 3 :: 64 word\<rparr>"
  let ?new = "\<lparr>LongURL = ''/b'', ShortCode = ''new'', CreatedAt = 1, ExpiresAt = 10,
                Clicks = 0 :: 64 word\<rparr>"
  let ?s = "\<lparr>data = [''old'' \<mapsto> ?old, ''new'' \<mapsto> ?new], domain = ''d''\<rparr>"
  have keys: "set [''old'', ''new''] = dom (data ?s)"
    by auto
  show ?thesis
    using keys
      sweep_removes_strictly_expired [OF keys, of 10 "''old''"]
      sweep_removes_strictly_expired [OF keys, of 10 "''new''"]
    by simp
qed

subsection \<open>Redirect and click counting\<close>

text \<open>
  C5: every successful Redirect (the code is present and the current time is not past
  \<open>expiresAt\<close>) answers 302 to the long URL and leaves the registry as it was except that
  the \<open>clicks\<close> of exactly that link is one more (\<open>Clicks++\<close> on an int64, which read as a
  signed number is exactly one more below the largest int64); \<open>Increment\<close> on a code that
  is absent returns the registry unchanged.
\<close>

theorem redirect_increments_clicks:
  "(data s code = Some l \<and> now \<le> ExpiresAt l \<longrightarrow>
      redirectHandler s code now =
        (RedirectResponse 302 (LongURL l),
         s\<lparr>data := (data s)(code \<mapsto> l\<lparr>Clicks := Clicks l + 1\<rparr>)\<rparr>)
      \<and> (sint (Clicks l) < 2 ^ 63 - 1 \<longrightarrow> sint (Clicks l + 1) = sint (Clicks l) + 1))
   \<and> (data s code = None \<longrightarrow> Increment s code = s)"
  by (simp add: redirectHandler_def Get_def Increment_def After_def StatusFound_def int64_succ)

theorem redirect_increments_clicks_witness:
  "redirectHandler
     \<lparr>data = [''abc'' \<mapsto> \<lparr>LongURL = ''https://example.com'', ShortCode = ''abc'',
                 CreatedAt = 2, ExpiresAt = 5, Clicks = 7\<rparr>], domain = ''d''\<rparr> ''abc'' 5
   = (RedirectResponse 302 ''https://example.com'',
      \<lparr>data = [''abc'' \<mapsto> \<lparr>LongURL = ''https://example.com'', ShortCode = ''abc'',
                 CreatedAt = 2, ExpiresAt = 5, Clicks = 8\<rparr>], domain = ''d''\<rparr>)
   \<and> sint (7 + 1 :: 64 word) = sint (7 :: 64 word) + 1
   \<and> Increment \<lparr>data = Map.empty, domain = ''d''\<rparr> ''abc''
     = \<lparr>data = Map.empty, domain = ''d''\<rparr>"
  using redirect_increments_clicks
      [of "\<lparr>data = [''abc'' \<mapsto> \<lparr>LongURL = ''https://example.com'', ShortCode = ''abc'',
                 CreatedAt = 2, ExpiresAt = 5, Clicks = 7\<rparr>], domain = ''d''\<rparr>"
          "''abc''"
          "\<lparr>LongURL = ''https://example.com'', ShortCode = ''abc'',
                 CreatedAt = 2, ExpiresAt = 5, Clicks = 7\<rparr>" 5]
    redirect_increments_clicks [of "\<lparr>data = Map.empty, domain = ''d''\<rparr>" "''abc''"]
  by simp

text \<open>
  C6: for a code that is present and whose \<open>expiresAt\<close> is strictly before the current
  time, Redirect answers 410 Gone with the error body, which is no redirect, and returns
  the registry unchanged, so no click is counted; for an absent code it answers 404.
\<close>

theorem redirect_expired_gone:
  "(data s code = Some l \<and> ExpiresAt l < now \<longrightarrow>
      redirectHandler s code now =
        (JSONResponse 410 (JObject [(''error'', JString ''short link expired'')]), s)
      \<and> (\<forall>st u. fst (redirectHandler s code now) \<noteq> RedirectResponse st u))
   \<and> (data s code = None \<longrightarrow>
      redirectHandler s code now =
        (JSONResponse 404 (JObject [(''error'', JString ''short link not found'')]), s))"
  by (simp add: redirectHandler_def Get_def After_def httpError_def writeJSON_def
      StatusGone_def StatusNotFound_def)

theorem redirect_expired_gone_witness:
  "redirectHandler
     \<lparr>data = [''abc'' \<mapsto> \<lparr>LongURL = ''https://example.com'', ShortCode = ''abc'',
                 CreatedAt = 2, ExpiresAt = 5, Clicks = 7\<rparr>], domain = ''d''\<rparr> ''abc'' 6
   = (JSONResponse 410 (JObject [(''error'', JString ''short link expired'')]),
      \<lparr>data = [''abc'' \<mapsto> \<lparr>LongURL = ''https://example.com'', ShortCode = ''abc'',
                 CreatedAt = 2, ExpiresAt = 5, Clicks = 7\<rparr>], domain = ''d''\<rparr>)
   \<and> redirectHandler \<lparr>data = Map.empty, domain = ''d''\<rparr> ''abc'' 6
     = (JSONResponse 404 (JObject [(''error'', JString ''short link not found'')]),
        \<lparr>data = Map.empty, domain = ''d''\<rparr>)"
  using redirect_expired_gone
      [of "\<lparr>data = [''abc'' \<mapsto> \<lparr>LongURL = ''https://example.com'', ShortCode = ''abc'',
                 CreatedAt = 2, ExpiresAt = 5, Clicks = 7\<rparr>], domain = ''d''\<rparr>"
          "''abc''"
          "\<lparr>LongURL = ''https://example.com'', ShortCode = ''abc'',
                 CreatedAt = 2, ExpiresAt = 5, Clicks = 7\<rparr>" 6]
    redirect_expired_gone [of "\<lparr>data = Map.empty, domain = ''d''\<rparr>" "''abc''" _ 6]
  by simp

subsection \<open>Stats\<close>

text \<open>
  C8: for every code present in the registry Stats answers 200 with the whole record
  (long_url, short_code, created_at, expires_at, clicks); the handler reads no clock, so
  an expired record that has not been swept is answered the same way. Stats answers 404
  NotFound exactly when the code is absent, and never 410 Gone.
\<close>

theorem stats_returns_record:
  "(data s code = Some l \<longrightarrow>
      statsHandler s code =
        JSONResponse 200 (JObject
          [(''long_url'', JString (LongURL l)),
           (''short_code'', JString (ShortCode l)),
           (''created_at'', JTime (CreatedAt l)),
           (''expires_at'', JTime (ExpiresAt l)),
           (''clicks'', JInt (sint (Clicks l)))]))
   \<and> (statsHandler s code =
        JSONResponse 404 (JObject [(''error'', JString ''short link not found'')])
      \<longleftrightarrow> data s code = None)
   \<and> (\<forall>j. statsHandler s code \<noteq> JSONResponse 410 j)
   \<and> (\<forall>st u. statsHandler s code \<noteq> RedirectResponse st u)"
  by (cases "data s code")
    (simp_all add: statsHandler_def Get_def httpError_def writeJSON_def linkJSON_def
      StatusOK_def StatusNotFound_def)

theorem stats_returns_record_witness:
  "statsHandler
     \<lparr>data = [''abc'' \<mapsto> \<lparr>LongURL = ''https://example.com'', ShortCode = ''abc'',
                 CreatedAt = 2, ExpiresAt = 5, Clicks = 7\<rparr>], domain = ''d''\<rparr> ''abc''
   = JSONResponse 200 (JObject
       [(''long_url'', JString ''https://example.com''),
        (''short_code'', JString ''abc''),
        (''created_at'', JTime 2),
        (''expires_at'', JTime 5),
        (''clicks'', JInt 7)])"
  using stats_returns_record
      [of "\<lparr>data = [''abc'' \<mapsto> \<lparr>LongURL = ''https://example.com'', ShortCode = ''abc'',
                 CreatedAt = 2, ExpiresAt = 5, Clicks = 7\<rparr>], domain = ''d''\<rparr>"
          "''abc''"
          "\<lparr>LongURL = ''https://example.com'', ShortCode = ''abc'',
                 CreatedAt = 2, ExpiresAt = 5, Clicks = 7\<rparr>"]
  by simp

subsection \<open>The code generator\<close>

text \<open>
  C7: every code produced by the generator at the configured length has exactly 6
  characters, and each of them belongs to \<open>base62\<close>, the alphabet of the 62 distinct
  symbols that are the lower-case Latin letters, the upper-case Latin letters and the
  digits, for every sequence of random draws.
\<close>

theorem generateCode_length_alphabet:
  "length (fst (generateCode CodeLength rnd)) = 6
   \<and> set (fst (generateCode CodeLength rnd)) \<subseteq> set base62
   \<and> base62 = ''abcdefghijklmnopqrstuvwxyz'' @ ''ABCDEFGHIJKLMNOPQRSTUVWXYZ'' @ ''0123456789''
   \<and> length base62 = 62
   \<and> distinct base62"
proof -
  have "length (fst (generateCode CodeLength rnd)) = 6"
    by (simp add: generateCode_length CodeLength_def)
  moreover have "set (fst (generateCode CodeLength rnd)) \<subseteq> set base62"
    by (rule generateCode_chars)
  moreover have "base62 =
      ''abcdefghijklmnopqrstuvwxyz'' @ ''ABCDEFGHIJKLMNOPQRSTUVWXYZ'' @ ''0123456789''"
    by (simp add: base62_def)
  moreover have "distinct base62"
    by (simp add: base62_def)
  ultimately show ?thesis
    using base62_length by blast
qed

theorem generateCode_length_alphabet_witness:
  "fst (generateCode CodeLength (sconst 0)) = ''aaaaaa''
   \<and> length (fst (generateCode CodeLength (sconst 0))) = 6
   \<and> set (fst (generateCode CodeLength (sconst 0))) \<subseteq> set base62"
proof -
  have "fst (generateCode CodeLength (sconst 0)) = ''aaaaaa''"
    by (simp add: CodeLength_Suc Intn_def base62_def)
  then show ?thesis
    using generateCode_length_alphabet [of "sconst 0"] by simp
qed

subsection \<open>Create\<close>

text \<open>
  C1 (as stated, refuted): the custom code \<open>abc\<close> is present, yet \<open>Create\<close> with that
  code and the long URL \<open>not-a-url\<close> fails with InvalidURL, not with CodeConflict: the
  URL is validated before the code is looked up.
\<close>

theorem Create_conflict_invalid_url:
  "''abc'' \<noteq> []
   \<and> data \<lparr>data = [''abc'' \<mapsto> \<lparr>LongURL = ''https://example.com'', ShortCode = ''abc'',
                   CreatedAt = 2, ExpiresAt = 5, Clicks = 0\<rparr>], domain = ''d''\<rparr> ''abc'' \<noteq> None
   \<and> Create \<lparr>data = [''abc'' \<mapsto> \<lparr>LongURL = ''https://example.com'', ShortCode = ''abc'',
                   CreatedAt = 2, ExpiresAt = 5, Clicks = 0\<rparr>], domain = ''d''\<rparr>
        ''not-a-url'' ''abc'' 30 3 (sconst 0)
     = Some (Inl InvalidURL,
         \<lparr>data = [''abc'' \<mapsto> \<lparr>LongURL = ''https://example.com'', ShortCode = ''abc'',
                   CreatedAt = 2, ExpiresAt = 5, Clicks = 0\<rparr>], domain = ''d''\<rparr>,
         sconst 0)"
  by (simp add: Create_def url_eval)

text \<open>
  C1 (amended): for every registry state in which the custom code is already present,
  \<open>Create\<close> called with that non-empty custom code fails and leaves the registry as it
  was: with CodeConflict for every long URL that passes the validation and every validity,
  with InvalidURL for a long URL that does not.
\<close>

theorem Create_custom_conflict:
  assumes "custom \<noteq> []" and "data s custom \<noteq> None"
  shows "Create s longURL custom validity now rnd =
           Some (Inl (if ParseRequestURI longURL = None then CodeConflict else InvalidURL),
                 s, rnd)"
  using assms by (simp add: Create_def)

theorem Create_custom_conflict_witness:
  "''abc'' \<noteq> []
   \<and> data \<lparr>data = [''abc'' \<mapsto> \<lparr>LongURL = ''https://example.com'', ShortCode = ''abc'',
                   CreatedAt = 2, ExpiresAt = 5, Clicks = 0\<rparr>], domain = ''d''\<rparr> ''abc'' \<noteq> None
   \<and> Create \<lparr>data = [''abc'' \<mapsto> \<lparr>LongURL = ''https://example.com'', ShortCode = ''abc'',
                   CreatedAt = 2, ExpiresAt = 5, Clicks = 0\<rparr>], domain = ''d''\<rparr>
        ''https://go.dev/doc'' ''abc'' 30 3 (sconst 0)
     = Some (Inl CodeConflict,
         \<lparr>data = [''abc'' \<mapsto> \<lparr>LongURL = ''https://example.com'', ShortCode = ''abc'',
                   CreatedAt = 2, ExpiresAt = 5, Clicks = 0\<rparr>], domain = ''d''\<rparr>,
         sconst 0)"
proof -
  let ?s = "\<lparr>data = [''abc'' \<mapsto> \<lparr>LongURL = ''https://example.com'', ShortCode = ''abc'',
                   CreatedAt = 2, ExpiresAt = 5, Clicks = 0 :: 64 word\<rparr>], domain = ''d''\<rparr>"
  have nonempty: "''abc'' \<noteq> []" by simp
  have present: "data ?s ''abc'' \<noteq> None" by simp
  have valid: "ParseRequestURI ''https://go.dev/doc'' = None"
    by (simp add: url_eval)
  show ?thesis
    using Create_custom_conflict [OF nonempty present, of "''https://go.dev/doc''" 30 3 "sconst 0"]
      valid by simp
qed

text \<open>
  C3 (as stated, refuted): \<open>/foo\<close> does not begin with a scheme and a colon, so it is
  not an absolute URI, yet \<open>Create\<close> accepts it and stores the link:
  \<open>url.ParseRequestURI\<close> also takes a string that begins with a slash.
\<close>

theorem Create_accepts_absolute_path:
  "Create \<lparr>data = Map.empty, domain = ''d''\<rparr> ''/foo'' ''abc'' 30 3 (sconst 0)
     = Some (Inr \<lparr>LongURL = ''/foo'', ShortCode = ''abc'', CreatedAt = 3, ExpiresAt = 33,
                  Clicks = 0\<rparr>,
         \<lparr>data = [''abc'' \<mapsto> \<lparr>LongURL = ''/foo'', ShortCode = ''abc'', CreatedAt = 3,
                   ExpiresAt = 33, Clicks = 0\<rparr>], domain = ''d''\<rparr>,
         sconst 0)
   \<and> \<not> startsWithScheme ''/foo''"
  by (simp add: Create_def Create_insert_def Let_def url_eval startsWithScheme_def)

text \<open>
  C3 (amended): for every input string \<open>longURL\<close>, \<open>Create\<close> fails with InvalidURL if and
  only if \<open>url.ParseRequestURI\<close> returns an error for it, and then the registry is
  unchanged. For a \<open>longURL\<close> that does not begin with a scheme and a colon, the parser
  returns no error exactly when \<open>longURL\<close> holds no control byte and either is \<open>*\<close> or
  begins with a slash and every \<open>%\<close> before its first question mark is followed by two
  hex digits. So every string that neither begins with a scheme and a colon, nor begins
  with a slash, nor is \<open>*\<close> is rejected, a bare relative path for example. For a
  \<open>longURL\<close> that begins with a scheme and a colon, the parser returns no error whenever
  \<open>longURL\<close> holds no control byte and what follows the colon does not begin with a slash.
\<close>

theorem Create_InvalidURL_iff:
  "((\<exists>s' rnd'. Create s longURL custom validity now rnd = Some (Inl InvalidURL, s', rnd'))
      \<longleftrightarrow> ParseRequestURI longURL \<noteq> None)
   \<and> (ParseRequestURI longURL \<noteq> None \<longrightarrow>
        Create s longURL custom validity now rnd = Some (Inl InvalidURL, s, rnd))
   \<and> (\<not> startsWithScheme longURL \<longrightarrow>
        (ParseRequestURI longURL = None \<longleftrightarrow>
           \<not> stringContainsCTLByte longURL
           \<and> (longURL = ''*''
              \<or> HasPrefix longURL ''/'' \<and> escapesWellFormed (beforeQuery longURL))))
   \<and> (longURL \<noteq> ''*'' \<and> \<not> HasPrefix longURL ''/'' \<and> \<not> startsWithScheme longURL \<longrightarrow>
        Create s longURL custom validity now rnd = Some (Inl InvalidURL, s, rnd))
   \<and> (startsWithScheme longURL \<and> \<not> stringContainsCTLByte longURL
        \<and> \<not> HasPrefix (afterScheme longURL) ''/'' \<longrightarrow>
        ParseRequestURI longURL = None)"
proof -
  have invalid: "Create s longURL custom validity now rnd = Some (Inl InvalidURL, s, rnd)"
    if "ParseRequestURI longURL \<noteq> None"
    using that by (simp add: Create_def)
  have valid: "Create s longURL custom validity now rnd \<noteq> Some (Inl InvalidURL, s', rnd')"
    if "ParseRequestURI longURL = None" for s' rnd'
    using that
    by (auto simp add: Create_def Create_insert_def Let_def split: option.splits)
  have first: "(\<exists>s' rnd'. Create s longURL custom validity now rnd
        = Some (Inl InvalidURL, s', rnd')) \<longleftrightarrow> ParseRequestURI longURL \<noteq> None"
    using invalid valid by blast
  have schemeless: "ParseRequestURI longURL = None \<longleftrightarrow>
      \<not> stringContainsCTLByte longURL
      \<and> (longURL = ''*''
         \<or> HasPrefix longURL ''/'' \<and> escapesWellFormed (beforeQuery longURL))"
    if "\<not> startsWithScheme longURL"
    using that by (rule ParseRequestURI_without_scheme)
  have rejected: "ParseRequestURI longURL \<noteq> None"
    if "longURL \<noteq> ''*''" "\<not> HasPrefix longURL ''/''" "\<not> startsWithScheme longURL"
    using that schemeless by simp
  have opaque: "ParseRequestURI longURL = None"
    if "startsWithScheme longURL" "\<not> stringContainsCTLByte longURL"
      "\<not> HasPrefix (afterScheme longURL) ''/''"
    using that by (rule ParseRequestURI_opaque)
  show ?thesis
  proof (intro conjI impI)
    show "(\<exists>s' rnd'. Create s longURL custom validity now rnd
        = Some (Inl InvalidURL, s', rnd')) \<longleftrightarrow> ParseRequestURI longURL \<noteq> None"
      by (rule first)
  next
    assume "ParseRequestURI longURL \<noteq> None"
    then show "Create s longURL custom validity now rnd = Some (Inl InvalidURL, s, rnd)"
      by (rule invalid)
  next
    assume "\<not> startsWithScheme longURL"
    then show "ParseRequestURI longURL = None \<longleftrightarrow>
        \<not> stringContainsCTLByte longURL
        \<and> (longURL = ''*''
           \<or> HasPrefix longURL ''/'' \<and> escapesWellFormed (beforeQuery longURL))"
      by (rule schemeless)
  next
    assume "longURL \<noteq> ''*'' \<and> \<not> HasPrefix longURL ''/'' \<and> \<not> startsWithScheme longURL"
    then have "ParseRequestURI longURL \<noteq> None"
      using rejected by simp
    then show "Create s longURL custom validity now rnd = Some (Inl InvalidURL, s, rnd)"
      by (rule invalid)
  next
    assume "startsWithScheme longURL \<and> \<not> stringContainsCTLByte longURL
        \<and> \<not> HasPrefix (afterScheme longURL) ''/''"
    then show "ParseRequestURI longURL = None"
      using opaque by simp
  qed
qed

theorem Create_InvalidURL_iff_witness:
  "(''foo/bar'' \<noteq> ''*'' \<and> \<not> HasPrefix ''foo/bar'' ''/'' \<and> \<not> startsWithScheme ''foo/bar'')
   \<and> Create \<lparr>data = Map.empty, domain = ''d''\<rparr> ''foo/bar'' ''abc'' 30 3 (sconst 0)
     = Some (Inl InvalidURL, \<lparr>data = Map.empty, domain = ''d''\<rparr>, sconst 0)
   \<and> \<not> startsWithScheme ''/foo'' \<and> ParseRequestURI ''/foo'' = None
   \<and> \<not> startsWithScheme ''/%zz'' \<and> ParseRequestURI ''/%zz'' \<noteq> None
   \<and> (startsWithScheme ''a: b'' \<and> \<not> stringContainsCTLByte ''a: b''
      \<and> \<not> HasPrefix (afterScheme ''a: b'') ''/'')
   \<and> ParseRequestURI ''a: b'' = None"
proof -
  let ?s = "\<lparr>data = Map.empty :: string \<rightharpoonup> Link, domain = ''d''\<rparr>"
  have relative: "''foo/bar'' \<noteq> ''*'' \<and> \<not> HasPrefix ''foo/bar'' ''/''
      \<and> \<not> startsWithScheme ''foo/bar''"
    by (simp add: HasPrefix_def startsWithScheme_def isLetter_def isDigit_def schemeChar_def
        between_def)
  have rooted: "\<not> startsWithScheme ''/foo'' \<and> \<not> stringContainsCTLByte ''/foo''
      \<and> HasPrefix ''/foo'' ''/'' \<and> escapesWellFormed (beforeQuery ''/foo'')"
    by (simp add: HasPrefix_def startsWithScheme_def isLetter_def between_def
        stringContainsCTLByte_def beforeQuery_def)
  have escape: "\<not> startsWithScheme ''/%zz'' \<and> \<not> escapesWellFormed (beforeQuery ''/%zz'')
      \<and> ''/%zz'' \<noteq> ''*''"
    by (simp add: startsWithScheme_def isLetter_def between_def beforeQuery_def ishex_def)
  have opaque: "startsWithScheme ''a: b'' \<and> \<not> stringContainsCTLByte ''a: b''
      \<and> \<not> HasPrefix (afterScheme ''a: b'') ''/''"
    by (simp add: HasPrefix_def startsWithScheme_def isLetter_def isDigit_def schemeChar_def
        between_def stringContainsCTLByte_def afterScheme_def)
  have "Create ?s ''foo/bar'' ''abc'' 30 3 (sconst 0) = Some (Inl InvalidURL, ?s, sconst 0)"
    using relative Create_InvalidURL_iff [of ?s "''foo/bar''" "''abc''" 30 3 "sconst 0"]
    by blast
  moreover have "ParseRequestURI ''/foo'' = None"
    using rooted Create_InvalidURL_iff [of ?s "''/foo''" "''abc''" 30 3 "sconst 0"]
    by blast
  moreover have "ParseRequestURI ''/%zz'' \<noteq> None"
    using escape Create_InvalidURL_iff [of ?s "''/%zz''" "''abc''" 30 3 "sconst 0"]
    by blast
  moreover have "ParseRequestURI ''a: b'' = None"
    using opaque Create_InvalidURL_iff [of ?s "''a: b''" "''abc''" 30 3 "sconst 0"]
    by blast
  ultimately show ?thesis
    using relative rooted escape opaque by blast
qed

text \<open>
  C4: whenever \<open>Create\<close> succeeds, for whatever long URL, custom code, validity, registry
  state, clock reading and random draws, the URL was valid, and \<open>Get\<close> on the resulting
  registry with the short code of the returned link finds a record, the returned one,
  whose \<open>longURL\<close> is the URL passed to \<open>Create\<close> and whose \<open>clicks\<close> is 0.
\<close>

theorem Create_then_Get:
  assumes "Create s longURL custom validity now rnd = Some (Inr l, s', rnd')"
  shows "Get s' (ShortCode l) = Some l \<and> LongURL l = longURL \<and> Clicks l = 0
         \<and> ParseRequestURI longURL = None"
  using assms
  by (auto simp add: Create_def Create_insert_def Let_def Get_def
      split: if_splits option.splits)

theorem Create_then_Get_witness:
  "Create \<lparr>data = Map.empty, domain = ''d''\<rparr> ''https://example.com'' [] 30 3 (sconst 0)
     = Some (Inr \<lparr>LongURL = ''https://example.com'', ShortCode = ''aaaaaa'', CreatedAt = 3,
                  ExpiresAt = 33, Clicks = 0\<rparr>,
         \<lparr>data = [''aaaaaa'' \<mapsto> \<lparr>LongURL = ''https://example.com'', ShortCode = ''aaaaaa'',
                   CreatedAt = 3, ExpiresAt = 33, Clicks = 0\<rparr>], domain = ''d''\<rparr>,
         sconst 0)
   \<and> Get \<lparr>data = [''aaaaaa'' \<mapsto> \<lparr>LongURL = ''https://example.com'', ShortCode = ''aaaaaa'',
                   CreatedAt = 3, ExpiresAt = 33, Clicks = 0\<rparr>], domain = ''d''\<rparr> ''aaaaaa''
     = Some \<lparr>LongURL = ''https://example.com'', ShortCode = ''aaaaaa'', CreatedAt = 3,
              ExpiresAt = 33, Clicks = 0\<rparr>"
proof -
  have loop: "Create_loop Map.empty (sconst 0) = Some (''aaaaaa'', sconst 0)"
    by (subst Create_loop.simps) (simp add: generateCode_zeros)
  have valid: "ParseRequestURI ''https://example.com'' = None"
    by (simp add: url_eval)
  have created:
    "Create \<lparr>data = Map.empty, domain = ''d''\<rparr> ''https://example.com'' [] 30 3 (sconst 0)
     = Some (Inr \<lparr>LongURL = ''https://example.com'', ShortCode = ''aaaaaa'', CreatedAt = 3,
                  ExpiresAt = 33, Clicks = 0\<rparr>,
         \<lparr>data = [''aaaaaa'' \<mapsto> \<lparr>LongURL = ''https://example.com'', ShortCode = ''aaaaaa'',
                   CreatedAt = 3, ExpiresAt = 33, Clicks = 0\<rparr>], domain = ''d''\<rparr>,
         sconst 0)"
    by (simp add: Create_def Create_insert_def Let_def valid loop)
  show ?thesis
    using created Create_then_Get [OF created] by simp
qed

text \<open>
  C9: with an empty custom code, if some round of the generation loop draws a code that
  is not in the registry, the loop ends and returns a code of length 6 over \<open>base62\<close>
  that is not in the registry, and \<open>Create\<close> with a valid URL returns a link under such a
  code; if every string of length 6 over \<open>base62\<close> is in the registry, the loop never
  ends, and neither does \<open>Create\<close> with a valid URL.
\<close>

theorem Create_generation_loop:
  "((\<exists>k. data s (fst (generateCode CodeLength (sdrop (k * CodeLength) rnd))) = None) \<longrightarrow>
      (\<exists>code rnd'. Create_loop (data s) rnd = Some (code, rnd') \<and> data s code = None
          \<and> length code = 6 \<and> set code \<subseteq> set base62)
      \<and> (ParseRequestURI longURL = None \<longrightarrow>
          (\<exists>l s' rnd'. Create s longURL [] validity now rnd = Some (Inr l, s', rnd')
              \<and> data s (ShortCode l) = None)))
   \<and> ((\<forall>c. length c = 6 \<and> set c \<subseteq> set base62 \<longrightarrow> data s c \<noteq> None) \<longrightarrow>
      Create_loop (data s) rnd = None
      \<and> (ParseRequestURI longURL = None \<longrightarrow>
          Create s longURL [] validity now rnd = None))"
proof (intro conjI impI)
  assume "\<exists>k. data s (fst (generateCode CodeLength (sdrop (k * CodeLength) rnd))) = None"
  then show "\<exists>code rnd'. Create_loop (data s) rnd = Some (code, rnd') \<and> data s code = None
          \<and> length code = 6 \<and> set code \<subseteq> set base62"
    using Create_loop_terminates [of "data s" _ rnd] by blast
next
  assume "\<exists>k. data s (fst (generateCode CodeLength (sdrop (k * CodeLength) rnd))) = None"
    and valid: "ParseRequestURI longURL = None"
  then obtain code rnd' where "Create_loop (data s) rnd = Some (code, rnd')"
    and "data s code = None"
    using Create_loop_terminates [of "data s" _ rnd] by blast
  then show "\<exists>l s' rnd'. Create s longURL [] validity now rnd = Some (Inr l, s', rnd')
              \<and> data s (ShortCode l) = None"
    using valid by (simp add: Create_def Create_insert_def Let_def)
next
  assume "\<forall>c. length c = 6 \<and> set c \<subseteq> set base62 \<longrightarrow> data s c \<noteq> None"
  then show "Create_loop (data s) rnd = None"
    by (rule Create_loop_diverges)
next
  assume "\<forall>c. length c = 6 \<and> set c \<subseteq> set base62 \<longrightarrow> data s c \<noteq> None"
    and valid: "ParseRequestURI longURL = None"
  then have "Create_loop (data s) rnd = None"
    using Create_loop_diverges by blast
  then show "Create s longURL [] validity now rnd = None"
    using valid by (simp add: Create_def)
qed

theorem Create_generation_loop_witness:
  "(\<exists>k. data \<lparr>data = [''aaaaaa'' \<mapsto> \<lparr>LongURL = ''https://example.com'',
                   ShortCode = ''aaaaaa'', CreatedAt = 2, ExpiresAt = 5, Clicks = 0\<rparr>],
              domain = ''d''\<rparr>
          (fst (generateCode CodeLength
             (sdrop (k * CodeLength) (0 ## 0 ## 0 ## 0 ## 0 ## 0 ## 1 ## sconst 0)))) = None)
   \<and> (\<exists>code rnd'.
        Create_loop
          (data \<lparr>data = [''aaaaaa'' \<mapsto> \<lparr>LongURL = ''https://example.com'',
                   ShortCode = ''aaaaaa'', CreatedAt = 2, ExpiresAt = 5, Clicks = 0\<rparr>],
              domain = ''d''\<rparr>)
          (0 ## 0 ## 0 ## 0 ## 0 ## 0 ## 1 ## sconst 0) = Some (code, rnd')
        \<and> code \<noteq> ''aaaaaa'' \<and> length code = 6)
   \<and> Create_loop
        (data \<lparr>data = (\<lambda>c. if length c = 6 \<and> set c \<subseteq> set base62
                             then Some \<lparr>LongURL = ''https://example.com'', ShortCode = c,
                                     CreatedAt = 2, ExpiresAt = 5, Clicks = 0\<rparr>
                             else None),
              domain = ''d''\<rparr>)
        (sconst 0) = None"
proof -
  let ?s = "\<lparr>data = [''aaaaaa'' \<mapsto> \<lparr>LongURL = ''https://example.com'',
                   ShortCode = ''aaaaaa'', CreatedAt = 2, ExpiresAt = 5, Clicks = 0 :: 64 word\<rparr>],
              domain = ''d''\<rparr>"
  let ?rnd = "0 ## 0 ## 0 ## 0 ## 0 ## 0 ## 1 ## sconst (0 :: nat)"
  let ?full = "\<lparr>data = (\<lambda>c. if length c = 6 \<and> set c \<subseteq> set base62
                             then Some \<lparr>LongURL = ''https://example.com'', ShortCode = c,
                                     CreatedAt = 2, ExpiresAt = 5, Clicks = 0 :: 64 word\<rparr>
                             else None),
              domain = ''d''\<rparr>"
  have second: "fst (generateCode CodeLength (sdrop (1 * CodeLength) ?rnd)) = ''baaaaa''"
    by (simp add: CodeLength_Suc Intn_def base62_def)
  have "data ?s (fst (generateCode CodeLength (sdrop (1 * CodeLength) ?rnd))) = None"
    by (simp only: second) simp
  then have draws: "\<exists>k. data ?s (fst (generateCode CodeLength (sdrop (k * CodeLength) ?rnd))) = None"
    by (rule exI)
  have full: "\<forall>c. length c = 6 \<and> set c \<subseteq> set base62 \<longrightarrow> data ?full c \<noteq> None"
    by simp
  have "\<exists>code rnd'. Create_loop (data ?s) ?rnd = Some (code, rnd') \<and> data ?s code = None
          \<and> length code = 6 \<and> set code \<subseteq> set base62"
    using Create_generation_loop [of ?s ?rnd "''https://example.com''" 30 3] draws by blast
  then have returns: "\<exists>code rnd'. Create_loop (data ?s) ?rnd = Some (code, rnd')
          \<and> code \<noteq> ''aaaaaa'' \<and> length code = 6"
    by auto
  have never: "Create_loop (data ?full) (sconst 0) = None"
    using Create_generation_loop [of ?full "sconst 0" "''https://example.com''" 30 3] full
    by blast
  show ?thesis
    using draws returns never by blast
qed

text \<open>
  C10: whenever \<open>Create\<close> returns an error, the registry (and the random stream) is what
  it was before the call; the error is InvalidURL for a URL that fails the validation, or
  CodeConflict for a non-empty custom code that is present.
\<close>

theorem Create_error_keeps_registry:
  assumes "Create s longURL custom validity now rnd = Some (Inl e, s', rnd')"
  shows "s' = s \<and> rnd' = rnd
         \<and> (e = InvalidURL \<and> ParseRequestURI longURL \<noteq> None
            \<or> e = CodeConflict \<and> custom \<noteq> [] \<and> data s custom \<noteq> None)"
  using assms
  by (auto simp add: Create_def Create_insert_def Let_def
      split: if_splits option.splits)

theorem Create_error_keeps_registry_witness:
  "Create \<lparr>data = [''abc'' \<mapsto> \<lparr>LongURL = ''https://example.com'', ShortCode = ''abc'',
                   CreatedAt = 2, ExpiresAt = 5, Clicks = 0\<rparr>], domain = ''d''\<rparr>
        ''https://go.dev/doc'' ''abc'' 30 3 (sconst 0)
     = Some (Inl CodeConflict,
         \<lparr>data = [''abc'' \<mapsto> \<lparr>LongURL = ''https://example.com'', ShortCode = ''abc'',
                   CreatedAt = 2, ExpiresAt = 5, Clicks = 0\<rparr>], domain = ''d''\<rparr>,
         sconst 0)
   \<and> ''abc'' \<noteq> []
   \<and> data \<lparr>data = [''abc'' \<mapsto> \<lparr>LongURL = ''https://example.com'', ShortCode = ''abc'',
                   CreatedAt = 2, ExpiresAt = 5, Clicks = 0\<rparr>], domain = ''d''\<rparr> ''abc'' \<noteq> None"
proof -
  have valid: "ParseRequestURI ''https://go.dev/doc'' = None"
    by (simp add: url_eval)
  have failed:
    "Create \<lparr>data = [''abc'' \<mapsto> \<lparr>LongURL = ''https://example.com'', ShortCode = ''abc'',
                   CreatedAt = 2, ExpiresAt = 5, Clicks = 0\<rparr>], domain = ''d''\<rparr>
        ''https://go.dev/doc'' ''abc'' 30 3 (sconst 0)
     = Some (Inl CodeConflict,
         \<lparr>data = [''abc'' \<mapsto> \<lparr>LongURL = ''https://example.com'', ShortCode = ''abc'',
                   CreatedAt = 2, ExpiresAt = 5, Clicks = 0\<rparr>], domain = ''d''\<rparr>,
         sconst 0)"
    by (simp add: Create_def valid)
  show ?thesis
    using failed Create_error_keeps_registry [OF failed] by simp
qed

end
